theory Spec2Isabelle
  imports Main "HOL-Library.Char_ord" "HOL-Library.List_Lexorder"
begin

section \<open>The type \<open>double\<close>\<close>

text \<open>
  A C++ \<open>double\<close> is an IEEE 754 binary64 number. \<open>Finite sg m e\<close> stands for the number
  \<open>m * 2 ^ e\<close>, negated when \<open>sg\<close> is set; zero is \<open>Finite sg 0 0\<close> (there are two zeros, one
  of each sign), and a number other than zero is written with an odd \<open>m\<close>. \<open>NaN\<close> stands
  for every not-a-number: the class never looks at a payload.
\<close>

datatype double = Finite bool nat int | Infinity bool | NaN

text \<open>The number of binary digits of \<open>n\<close>.\<close>

fun bitlen :: "nat \<Rightarrow> nat" where
  "bitlen n = (if n = 0 then 0 else Suc (bitlen (n div 2)))"

text \<open>The values of the type: at most 53 significant bits, the last place no lower than
  \<open>2 ^ (- 1074)\<close>, the magnitude below \<open>2 ^ 1024\<close>.\<close>

fun is_double :: "double \<Rightarrow> bool" where
  "is_double NaN = True"
| "is_double (Infinity sg) = True"
| "is_double (Finite sg m e) =
     (if m = 0 then e = 0
      else odd m \<and> m < 2 ^ 53 \<and> - 1074 \<le> e \<and> int (bitlen m) + e \<le> 1024)"

fun is_nan :: "double \<Rightarrow> bool" where
  "is_nan NaN = True"
| "is_nan (Infinity sg) = False"
| "is_nan (Finite sg m e) = False"

fun is_zero :: "double \<Rightarrow> bool" where
  "is_zero NaN = False"
| "is_zero (Infinity sg) = False"
| "is_zero (Finite sg m e) = (m = 0)"

text \<open>Writing \<open>m * 2 ^ e\<close> with an odd \<open>m\<close>.\<close>

fun canonical :: "bool \<Rightarrow> nat \<Rightarrow> int \<Rightarrow> double" where
  "canonical sg m e =
     (if m = 0 then Finite sg 0 0
      else if even m then canonical sg (m div 2) (e + 1)
      else Finite sg m e)"

text \<open>Dropping the last \<open>s\<close> binary digits of \<open>m\<close>, to the nearest, a tie to the even
  neighbour.\<close>

definition round_half_even :: "nat \<Rightarrow> nat \<Rightarrow> nat" where
  "round_half_even m s =
     (let q = m div 2 ^ s; r = m mod 2 ^ s; h = 2 ^ (s - 1)
      in if h < r \<or> (r = h \<and> odd q) then q + 1 else q)"

text \<open>Rounding the exact number \<open>m * 2 ^ e\<close> of sign \<open>sg\<close> to a double, in the default
  rounding mode (to nearest, ties to even): \<open>p\<close> is the place of the leading digit, \<open>qe\<close>
  the last place a double with this leading digit has; what overflows becomes an
  infinity.\<close>

definition round_double :: "bool \<Rightarrow> nat \<Rightarrow> int \<Rightarrow> double" where
  "round_double sg m e =
     (if m = 0 then Finite sg 0 0
      else
        let p = int (bitlen m) - 1 + e;
            qe = max (p - 52) (- 1074)
        in if qe \<le> e then (if 1023 < p then Infinity sg else canonical sg m e)
           else
             let q = round_half_even m (nat (qe - e))
             in if 1024 < int (bitlen q) + qe then Infinity sg else canonical sg q qe)"

definition signed :: "bool \<Rightarrow> nat \<Rightarrow> int" where
  "signed sg m = (if sg then - int m else int m)"

text \<open>Addition: the exact sum of the two numbers, as a multiple \<open>i\<close> of \<open>2 ^ e\<close>, rounded.
  An exact sum of zero is \<open>+0\<close> unless both operands are negative. Subtraction adds
  the negated operand.\<close>

fun dadd :: "double \<Rightarrow> double \<Rightarrow> double" where
  "dadd NaN y = NaN"
| "dadd x NaN = NaN"
| "dadd (Infinity s) (Infinity t) = (if s = t then Infinity s else NaN)"
| "dadd (Infinity s) (Finite t m e) = Infinity s"
| "dadd (Finite s m e) (Infinity t) = Infinity t"
| "dadd (Finite s1 m1 e1) (Finite s2 m2 e2) =
     (let e = (if m1 = 0 then e2 else if m2 = 0 then e1 else min e1 e2);
          i = signed s1 (m1 * 2 ^ nat (e1 - e)) + signed s2 (m2 * 2 ^ nat (e2 - e))
      in if i = 0 then Finite (s1 \<and> s2) 0 0
         else round_double (i < 0) (nat \<bar>i\<bar>) e)"

fun dneg :: "double \<Rightarrow> double" where
  "dneg NaN = NaN"
| "dneg (Infinity s) = Infinity (\<not> s)"
| "dneg (Finite s m e) = Finite (\<not> s) m e"

text \<open>The operators \<open>+\<close>, \<open>-\<close> and the literal \<open>0\<close> of the type.\<close>

instantiation double :: "{zero, plus, minus, uminus}"
begin

definition zero_double :: double where
  "zero_double = Finite False 0 0"

definition plus_double :: "double \<Rightarrow> double \<Rightarrow> double" where
  "plus_double x y = dadd x y"

definition minus_double :: "double \<Rightarrow> double \<Rightarrow> double" where
  "minus_double x y = dadd x (dneg y)"

definition uminus_double :: "double \<Rightarrow> double" where
  "uminus_double x = dneg x"

instance ..

end

text \<open>The comparisons \<open>==\<close> and \<open><\<close>: false as soon as an operand is not a number; the
  two zeros are equal.\<close>

fun deq :: "double \<Rightarrow> double \<Rightarrow> bool" where
  "deq NaN y = False"
| "deq x NaN = False"
| "deq (Infinity s) (Infinity t) = (s = t)"
| "deq (Infinity s) (Finite t m e) = False"
| "deq (Finite s m e) (Infinity t) = False"
| "deq (Finite s1 m1 e1) (Finite s2 m2 e2) =
     ((m1 = 0 \<and> m2 = 0) \<or> (s1 = s2 \<and> m1 = m2 \<and> e1 = e2))"

fun dless :: "double \<Rightarrow> double \<Rightarrow> bool" where
  "dless NaN y = False"
| "dless x NaN = False"
| "dless (Infinity s) (Infinity t) = (s \<and> \<not> t)"
| "dless (Infinity s) (Finite t m e) = s"
| "dless (Finite s m e) (Infinity t) = (\<not> t)"
| "dless (Finite s1 m1 e1) (Finite s2 m2 e2) =
     (let e = min e1 e2
      in signed s1 (m1 * 2 ^ nat (e1 - e)) < signed s2 (m2 * 2 ^ nat (e2 - e)))"

text \<open>The double nearest to \<open>i * 2 ^ e\<close>: \<open>dbl 5 (- 2)\<close> is 1.25 and \<open>dbl 100 0\<close> is 100.\<close>

definition dbl :: "int \<Rightarrow> int \<Rightarrow> double" where
  "dbl i e = round_double (i < 0) (nat \<bar>i\<bar>) e"


section \<open>The container: \<open>std::map<std::string, double>\<close>\<close>

text \<open>
  \<^verbatim>\<open>typedef std::map<std::string, double> Event;\<close>

  An \<open>Event\<close> is modelled by the list of its (key, value) entries in iteration order.
  \<open>std::map\<close> keeps its entries in strictly ascending key order under
  \<open>std::less<std::string>\<close>, which compares strings lexicographically, character by
  character as unsigned bytes: the order of \<open>char list\<close> given by \<open>List_Lexorder\<close> over
  \<open>Char_ord\<close>.
\<close>

type_synonym Event = "(string \<times> double) list"

definition keys :: "Event \<Rightarrow> string list" where
  "keys m = map fst m"

text \<open>The representation invariant of \<open>std::map\<close>: keys strictly ascending (hence unique).\<close>

definition is_map :: "Event \<Rightarrow> bool" where
  "is_map m = sorted_wrt (<) (keys m)"

text \<open>Reading an entry without touching the map; a missing key reads as \<open>0.0\<close>, the value
  \<open>operator[]\<close> would create for it.\<close>

definition val :: "Event \<Rightarrow> string \<Rightarrow> double" where
  "val m k = (case map_of m k of Some v \<Rightarrow> v | None \<Rightarrow> 0)"

text \<open>Placing an entry at its position in key order, overwriting the value of an equal key.\<close>

fun emplace :: "string \<Rightarrow> double \<Rightarrow> Event \<Rightarrow> Event" where
  "emplace k v [] = [(k, v)]"
| "emplace k v (p # ps) =
     (if k = fst p then (k, v) # ps
      else if k < fst p then (k, v) # p # ps
      else p # emplace k v ps)"

text \<open>\<open>m[k]\<close>: the value under \<open>k\<close>, together with the map after the access. A key that is
  absent is inserted with the value-initialised double \<open>0.0\<close>.\<close>

definition subscript :: "Event \<Rightarrow> string \<Rightarrow> double \<times> Event" where
  "subscript m k =
     (case map_of m k of
        Some v \<Rightarrow> (v, m)
      | None \<Rightarrow> (0, emplace k 0 m))"

text \<open>\<open>m[k] = v\<close>, \<open>m[k] += d\<close> and \<open>m[k] -= d\<close>: the access, then the write through the
  reference it returned.\<close>

definition assign :: "string \<Rightarrow> double \<Rightarrow> Event \<Rightarrow> Event" where
  "assign k v m = (let (old, m1) = subscript m k in emplace k v m1)"

definition add_assign :: "string \<Rightarrow> double \<Rightarrow> Event \<Rightarrow> Event" where
  "add_assign k d m = (let (old, m1) = subscript m k in emplace k (old + d) m1)"

definition sub_assign :: "string \<Rightarrow> double \<Rightarrow> Event \<Rightarrow> Event" where
  "sub_assign k d m = (let (old, m1) = subscript m k in emplace k (old - d) m1)"

text \<open>\<open>m.erase(k)\<close>: removes the entry with key \<open>k\<close>, if there is one.\<close>

fun erase :: "string \<Rightarrow> Event \<Rightarrow> Event" where
  "erase k [] = []"
| "erase k (p # ps) = (if fst p = k then ps else p # erase k ps)"

text \<open>\<open>for (E = m.begin(); E != m.end(); ++E) E->second = 0;\<close>\<close>

fun zero_all :: "Event \<Rightarrow> Event" where
  "zero_all [] = []"
| "zero_all ((k, v) # es) = (k, 0) # zero_all es"


section \<open>Output streams\<close>

text \<open>
  What a stream receives is recorded as the sequence of formatted insertions.
  Characters are recorded as they are written (a string after padding to the field
  width). The decimal text of a number is not computed: an inserted \<open>double\<close> is recorded
  with the field width, the adjustment, the fill character, the float-field flag and
  the precision in force when it was inserted, an inserted \<open>int\<close> by its value.
\<close>

datatype floatfield = ff_unset | ff_fixed | ff_scientific

datatype adjustfield = adj_unset | adj_left | adj_right | adj_internal

datatype out =
    Chars string
  | Dbl nat adjustfield char floatfield nat double
  | Dec int

definition newline :: string where
  "newline = [CHR 0x0A]"

definition tab :: string where
  "tab = [CHR 0x09]"

text \<open>A string inserted with field width \<open>w\<close>: a string shorter than the width is
  filled up with the fill character of the stream, after the string when the
  adjustment of the stream is \<open>left\<close> and before it otherwise; a string longer than the
  width is written in full.\<close>

definition pad :: "adjustfield \<Rightarrow> char \<Rightarrow> nat \<Rightarrow> string \<Rightarrow> string" where
  "pad adj fill w s =
     (if adj = adj_left then s @ replicate (w - length s) fill
      else replicate (w - length s) fill @ s)"

text \<open>\<open>std::cout\<close>. The class inherits the adjustment and the fill character from the
  program around it and never sets them. The flags \<open>std::fixed\<close> and
  \<open>std::setprecision\<close> stay set on the stream once inserted; the width applies to the
  next insertion only and is passed with it.\<close>

record console =
  adjustflag :: adjustfield
  fillchar :: char
  floatflag :: floatfield
  precision :: nat
  shown :: "out list"

definition cout_str :: "nat \<Rightarrow> string \<Rightarrow> console \<Rightarrow> console" where
  "cout_str w s c = c\<lparr>shown := shown c @ [Chars (pad (adjustflag c) (fillchar c) w s)]\<rparr>"

definition cout_dbl :: "nat \<Rightarrow> double \<Rightarrow> console \<Rightarrow> console" where
  "cout_dbl w v c =
     c\<lparr>shown := shown c @
        [Dbl w (adjustflag c) (fillchar c) (floatflag c) (precision c) v]\<rparr>"

definition cout_endl :: "console \<Rightarrow> console" where
  "cout_endl c = c\<lparr>shown := shown c @ [Chars newline]\<rparr>"

definition cout_fixed :: "console \<Rightarrow> console" where
  "cout_fixed c = c\<lparr>floatflag := ff_fixed\<rparr>"

definition cout_setprecision :: "nat \<Rightarrow> console \<Rightarrow> console" where
  "cout_setprecision n c = c\<lparr>precision := n\<rparr>"

text \<open>\<open>std::ofstream\<close>. \<open>is_open\<close> tells whether the stream holds an open file and takes
  output. A stream that was never opened, or whose \<open>open\<close> failed, takes none: an
  insertion into it leaves no trace. The class never checks its streams.
  No manipulator is ever inserted into a file stream, so a \<open>double\<close> is formatted with
  the defaults (no width, adjustment unset, fill character space, float field unset,
  precision 6).\<close>

record ofstream =
  fname :: string
  is_open :: bool
  content :: "out list"

text \<open>A default-constructed stream.\<close>

definition ofstream_init :: ofstream where
  "ofstream_init = \<lparr>fname = [], is_open = False, content = []\<rparr>"

text \<open>\<open>f.open(name)\<close> on a stream that is not open, as in the constructor; the default
  mode empties the file. Whether the file system lets the file be created is given by
  \<open>can_open\<close>.\<close>

definition ofstream_open :: "(string \<Rightarrow> bool) \<Rightarrow> string \<Rightarrow> ofstream \<Rightarrow> ofstream" where
  "ofstream_open can_open name f = f\<lparr>fname := name, is_open := can_open name, content := []\<rparr>"

definition ofstream_close :: "ofstream \<Rightarrow> ofstream" where
  "ofstream_close f = f\<lparr>is_open := False\<rparr>"

definition fput :: "out \<Rightarrow> ofstream \<Rightarrow> ofstream" where
  "fput x f = (if is_open f then f\<lparr>content := content f @ [x]\<rparr> else f)"

definition f_str :: "string \<Rightarrow> ofstream \<Rightarrow> ofstream" where
  "f_str s f = fput (Chars s) f"

definition f_dbl :: "double \<Rightarrow> ofstream \<Rightarrow> ofstream" where
  "f_dbl v f = fput (Dbl 0 adj_unset CHR '' '' ff_unset 6 v) f"

definition f_int :: "int \<Rightarrow> ofstream \<Rightarrow> ofstream" where
  "f_int n f = fput (Dec n) f"

definition f_endl :: "ofstream \<Rightarrow> ofstream" where
  "f_endl f = fput (Chars newline) f"


section \<open>The class \<open>Logger\<close>\<close>

text \<open>The member \<open>file\<close> is named \<open>file'\<close> here.\<close>

record Logger =
  file' :: ofstream
  stepFile :: ofstream
  legendFile :: ofstream
  tic :: Event
  timer :: Event
  timeStep :: Event
  memory :: Event
  printNow :: bool
  cout :: console

text \<open>The state of \<open>std::cout\<close> when a program starts.\<close>

definition cout_init :: console where
  "cout_init =
     \<lparr>adjustflag = adj_unset, fillchar = CHR '' '', floatflag = ff_unset, precision = 6,
      shown = []\<rparr>"

text \<open>\<^verbatim>\<open>Logger(){}\<close>: no file is opened and \<open>printNow\<close> is left uninitialised (the value
  it happens to hold is the parameter \<open>pn\<close>). \<open>c\<close> is the state of \<open>std::cout\<close> at the
  time of construction.\<close>

definition Logger_default :: "bool \<Rightarrow> console \<Rightarrow> Logger" where
  "Logger_default pn c =
     \<lparr>file' = ofstream_init, stepFile = ofstream_init, legendFile = ofstream_init,
      tic = [], timer = [], timeStep = [], memory = [],
      printNow = pn, cout = c\<rparr>"

text \<open>\<^verbatim>\<open>Logger(std::string folder)\<close>\<close>

definition Logger_folder :: "(string \<Rightarrow> bool) \<Rightarrow> string \<Rightarrow> console \<Rightarrow> Logger" where
  "Logger_folder can_open folder c =
     \<lparr>file' = ofstream_open can_open (folder @ ''/time'') ofstream_init,
      stepFile = ofstream_open can_open (folder @ ''/profiling'') ofstream_init,
      legendFile = ofstream_open can_open (folder @ ''/profiling_legend'') ofstream_init,
      tic = [], timer = [], timeStep = [], memory = [],
      printNow = False, cout = c\<rparr>"

text \<open>\<open>startTimer\<close>; \<open>now\<close> is the value \<open>get_time()\<close> returns in the call.\<close>

definition startTimer :: "double \<Rightarrow> string \<Rightarrow> Logger \<Rightarrow> Logger" where
  "startTimer now event s = s\<lparr>tic := assign event now (tic s)\<rparr>"

text \<open>The line \<^verbatim>\<open>std::cout << event << " : " << v << std::endl\<close>\<close>

definition cout_event_line :: "string \<Rightarrow> double \<Rightarrow> console \<Rightarrow> console" where
  "cout_event_line event v c =
     cout_endl (cout_dbl 0 v (cout_str 0 '' : '' (cout_str 0 event c)))"

text \<open>\<open>stopTimer\<close>; \<open>now\<close> is the value \<open>get_time()\<close> returns in the call. Each of the two
  compound assignments reads \<open>tic[event]\<close> anew.\<close>

definition stopTimer :: "double \<Rightarrow> string \<Rightarrow> bool \<Rightarrow> Logger \<Rightarrow> Logger" where
  "stopTimer now event print s =
     (let toc = now;
          (t1, tic1) = subscript (tic s) event;
          timeStep1 = add_assign event (toc - t1) (timeStep s);
          (t2, tic2) = subscript tic1 event;
          timer1 = add_assign event (toc - t2) (timer s);
          s1 = s\<lparr>tic := tic2, timeStep := timeStep1, timer := timer1\<rparr>
      in if print then
           (let (v, timer2) = subscript timer1 event
            in s1\<lparr>timer := timer2, cout := cout_event_line event v (cout s1)\<rparr>)
         else s1)"

definition eraseTimer :: "string \<Rightarrow> Logger \<Rightarrow> Logger" where
  "eraseTimer event s = s\<lparr>timer := erase event (timer s)\<rparr>"

definition resetTimer :: "Logger \<Rightarrow> Logger" where
  "resetTimer s = s\<lparr>timer := zero_all (timer s)\<rparr>"

definition resetTimeStep :: "Logger \<Rightarrow> Logger" where
  "resetTimeStep s = s\<lparr>timeStep := zero_all (timeStep s)\<rparr>"

definition allocMemory :: "string \<Rightarrow> double \<Rightarrow> Logger \<Rightarrow> Logger" where
  "allocMemory event bytes s = s\<lparr>memory := add_assign event bytes (memory s)\<rparr>"

definition freeMemory :: "string \<Rightarrow> double \<Rightarrow> Logger \<Rightarrow> Logger" where
  "freeMemory event bytes s = s\<lparr>memory := sub_assign event bytes (memory s)\<rparr>"

definition printTime :: "string \<Rightarrow> Logger \<Rightarrow> Logger" where
  "printTime event s =
     (let (v, timer1) = subscript (timer s) event
      in s\<lparr>timer := timer1, cout := cout_event_line event v (cout s)\<rparr>)"

definition printMemory :: "string \<Rightarrow> Logger \<Rightarrow> Logger" where
  "printMemory event s =
     (let (v, memory1) = subscript (memory s) event
      in s\<lparr>memory := memory1, cout := cout_event_line event v (cout s)\<rparr>)"

text \<open>One row of the table of \<open>printAllTime\<close>:
  \<^verbatim>\<open>std::cout << std::setw(24) << name << std::setw(13) << std::fixed
            << std::setprecision(4) << v << std::endl\<close>\<close>

definition cout_row :: "string \<Rightarrow> double \<Rightarrow> console \<Rightarrow> console" where
  "cout_row name v c =
     cout_endl (cout_dbl 13 v (cout_setprecision 4 (cout_fixed (cout_str 24 name c))))"

text \<open>The loop of \<open>printAllTime\<close>, over the entries from \<open>begin()\<close> to \<open>end()\<close>, carrying
  \<open>totalTime\<close> and the console.\<close>

fun printAllTime_loop :: "Event \<Rightarrow> double \<Rightarrow> console \<Rightarrow> double \<times> console" where
  "printAllTime_loop [] totalTime c = (totalTime, c)"
| "printAllTime_loop ((k, v) # es) totalTime c =
     printAllTime_loop es (totalTime + v) (cout_row k v c)"

definition separator :: string where
  "separator = ''-------------------------------------''"

definition printAllTime :: "Logger \<Rightarrow> Logger" where
  "printAllTime s =
     (let c0 = cout_endl (cout s);
          (totalTime, c1) = printAllTime_loop (timer s) 0 c0;
          c2 = cout_endl (cout_str 0 separator c1);
          c3 = cout_row ''TOTAL'' totalTime c2
      in s\<lparr>cout := c3\<rparr>)"

fun writeLegend_loop :: "Event \<Rightarrow> ofstream \<Rightarrow> ofstream" where
  "writeLegend_loop [] f = f"
| "writeLegend_loop ((k, v) # es) f = writeLegend_loop es (f_endl (f_str k f))"

definition writeLegend :: "Logger \<Rightarrow> Logger" where
  "writeLegend s = s\<lparr>legendFile := writeLegend_loop (timer s) (legendFile s)\<rparr>"

fun writeTime_loop :: "Event \<Rightarrow> ofstream \<Rightarrow> ofstream" where
  "writeTime_loop [] f = f"
| "writeTime_loop ((k, v) # es) f =
     writeTime_loop es (f_endl (f_dbl v (f_str '' '' (f_str k f))))"

definition writeTime :: "Logger \<Rightarrow> Logger" where
  "writeTime s = s\<lparr>file' := writeTime_loop (timer s) (file' s)\<rparr>"

fun writeTimeStep_loop :: "Event \<Rightarrow> ofstream \<Rightarrow> ofstream" where
  "writeTimeStep_loop [] f = f"
| "writeTimeStep_loop ((k, v) # es) f = writeTimeStep_loop es (f_str tab (f_dbl v f))"

definition writeTimeStep :: "int \<Rightarrow> Logger \<Rightarrow> Logger" where
  "writeTimeStep n s =
     (let f0 = f_str tab (f_int n (stepFile s));
          f1 = writeTimeStep_loop (timeStep s) f0
      in s\<lparr>stepFile := f_endl f1\<rparr>)"

text \<open>\<^verbatim>\<open>~Logger()\<close>: the body, then the destruction of the members, which closes
  \<open>legendFile\<close> as well.\<close>

definition Logger_destroy :: "Logger \<Rightarrow> Logger" where
  "Logger_destroy s =
     (let s1 = writeLegend s
      in s1\<lparr>file' := ofstream_close (file' s1),
            stepFile := ofstream_close (stepFile s1),
            legendFile := ofstream_close (legendFile s1)\<rparr>)"


section \<open>Sequences of calls\<close>

datatype call =
    StartTimer double string
  | StopTimer double string bool
  | EraseTimer string
  | ResetTimer
  | ResetTimeStep
  | AllocMemory string double
  | FreeMemory string double
  | PrintTime string
  | PrintMemory string
  | PrintAllTime
  | WriteLegend
  | WriteTime
  | WriteTimeStep int

fun exec :: "call \<Rightarrow> Logger \<Rightarrow> Logger" where
  "exec (StartTimer now e) s = startTimer now e s"
| "exec (StopTimer now e p) s = stopTimer now e p s"
| "exec (EraseTimer e) s = eraseTimer e s"
| "exec ResetTimer s = resetTimer s"
| "exec ResetTimeStep s = resetTimeStep s"
| "exec (AllocMemory e b) s = allocMemory e b s"
| "exec (FreeMemory e b) s = freeMemory e b s"
| "exec (PrintTime e) s = printTime e s"
| "exec (PrintMemory e) s = printMemory e s"
| "exec PrintAllTime s = printAllTime s"
| "exec WriteLegend s = writeLegend s"
| "exec WriteTime s = writeTime s"
| "exec (WriteTimeStep n) s = writeTimeStep n s"

fun run :: "call list \<Rightarrow> Logger \<Rightarrow> Logger" where
  "run [] s = s"
| "run (c # cs) s = run cs (exec c s)"

text \<open>Every map of the object is a \<open>std::map\<close>.\<close>

definition maps_ok :: "Logger \<Rightarrow> bool" where
  "maps_ok s = (is_map (tic s) \<and> is_map (timer s) \<and> is_map (timeStep s) \<and> is_map (memory s))"


section \<open>Facts about the arithmetic of \<open>double\<close>\<close>

declare bitlen.simps [simp del]
declare canonical.simps [simp del]

lemma bitlen_le: "m < 2 ^ k \<Longrightarrow> bitlen m \<le> k"
proof (induction k arbitrary: m)
  case 0
  then show ?case by (simp add: bitlen.simps)
next
  case (Suc k)
  then have "m div 2 < 2 ^ k" by simp
  then have "bitlen (m div 2) \<le> k" by (rule Suc.IH)
  then show ?case by (subst bitlen.simps) simp
qed

lemma canonical_odd: "odd m \<Longrightarrow> canonical sg m e = Finite sg m e"
  by (subst canonical.simps) auto

lemma round_double_exact:
  assumes "odd m" and "m < 2 ^ 53" and "- 1074 \<le> e" and "int (bitlen m) + e \<le> 1024"
  shows "round_double sg m e = Finite sg m e"
proof -
  from assms(1) have "m \<noteq> 0" by (auto elim: oddE)
  moreover from assms(2) have "bitlen m \<le> 53" by (rule bitlen_le)
  ultimately show ?thesis
    using assms by (simp add: round_double_def Let_def canonical_odd)
qed

lemma nat_abs_signed: "nat \<bar>signed sg m\<bar> = m"
  by (simp add: signed_def)

lemma signed_neg: "signed sg m < 0 \<longleftrightarrow> sg \<and> m \<noteq> 0"
  by (simp add: signed_def)

lemma signed_zero: "signed sg m = 0 \<longleftrightarrow> m = 0"
  by (simp add: signed_def)

lemma signed_0: "signed sg 0 = 0"
  by (simp add: signed_def)

lemma zero_plus: "is_zero z \<Longrightarrow> is_double a \<Longrightarrow> \<not> is_zero a \<Longrightarrow> z + a = a"
  by (cases z; cases a)
     (simp_all add: plus_double_def Let_def signed_0 signed_zero signed_neg nat_abs_signed
        round_double_exact)

lemma minus_zero: "is_double x \<Longrightarrow> x - 0 = x"
  by (cases x)
     (auto simp: minus_double_def zero_double_def Let_def signed_0 signed_zero signed_neg
        nat_abs_signed round_double_exact)

lemma zero_plus_zero: "(0::double) + 0 = 0"
  by (simp add: plus_double_def zero_double_def signed_def)

lemma deq_same: "deq x x \<longleftrightarrow> \<not> is_nan x"
  by (cases x) auto

lemma zero_minus_cong:
  "is_zero x \<Longrightarrow> is_zero y \<Longrightarrow>
   deq (x - b) (y - b) = (\<not> is_nan (y - b)) \<and> (dless (y - b) 0 \<longrightarrow> dless (x - b) 0)"
  by (cases x; cases y; cases b)
     (auto simp: minus_double_def zero_double_def Let_def signed_zero deq_same signed_def)


text \<open>The difference of two doubles is negative when the first is less than the second:
  it is a multiple of the smallest positive double, so it never rounds to zero.\<close>

lemma bitlen_pos: "0 < m \<Longrightarrow> bitlen m = Suc (bitlen (m div 2))"
  by (subst bitlen.simps) simp

lemma bitlen_lower: "0 < m \<Longrightarrow> 2 ^ (bitlen m - 1) \<le> m"
proof (induction m rule: less_induct)
  case (less m)
  show ?case
  proof (cases "m div 2 = 0")
    case True
    with less.prems have "bitlen m = 1"
      by (simp add: bitlen_pos) (simp add: bitlen.simps)
    with less.prems show ?thesis by simp
  next
    case False
    then have h: "0 < m div 2" by simp
    with less.prems have "m div 2 < m" by simp
    from less.IH [OF this h] have "2 ^ (bitlen (m div 2) - 1) \<le> m div 2" .
    moreover from h have "bitlen (m div 2) = Suc (bitlen (m div 2) - 1)"
      by (simp add: bitlen_pos)
    ultimately have "2 ^ bitlen (m div 2) \<le> 2 * (m div 2)"
      by (metis mult_le_mono2 power_Suc)
    also have "\<dots> \<le> m" by simp
    finally show ?thesis
      using less.prems by (simp add: bitlen_pos)
  qed
qed

lemma canonical_pos: "0 < m \<Longrightarrow> \<exists>q e'. canonical sg m e = Finite sg q e' \<and> 0 < q"
proof (induction sg m e rule: canonical.induct)
  case (1 sg m e)
  show ?case
  proof (cases "even m")
    case True
    with "1.prems" have "0 < m div 2" by (auto elim: evenE)
    with "1.IH" "1.prems" True
    obtain q e' where "canonical sg (m div 2) (e + 1) = Finite sg q e'" and "0 < q"
      by auto
    with "1.prems" True show ?thesis
      by (subst canonical.simps) simp
  next
    case False
    with "1.prems" show ?thesis
      by (subst canonical.simps) simp
  qed
qed

lemma round_half_even_ge: "m div 2 ^ s \<le> round_half_even m s"
  by (simp add: round_half_even_def Let_def)

lemma round_double_sign:
  assumes "0 < m" and "- 1074 \<le> e"
  shows "round_double sg m e = Infinity sg \<or>
         (\<exists>q e'. round_double sg m e = Finite sg q e' \<and> 0 < q)"
proof -
  define p where "p = int (bitlen m) - 1 + e"
  define qe where "qe = max (p - 52) (- 1074)"
  show ?thesis
  proof (cases "qe \<le> e")
    case True
    with assms canonical_pos [OF assms(1), of sg e] show ?thesis
      by (auto simp: round_double_def Let_def p_def qe_def)
  next
    case False
    with assms(2) have s: "nat (qe - e) = bitlen m - 53" and big: "53 < bitlen m"
      by (auto simp: qe_def p_def)
    from big have "2 ^ (bitlen m - 53) \<le> (2::nat) ^ (bitlen m - 1)"
      by (intro power_increasing) auto
    also from assms(1) have "\<dots> \<le> m" by (rule bitlen_lower)
    finally have "0 < m div 2 ^ (bitlen m - 53)"
      by (simp add: div_greater_zero_iff)
    with round_half_even_ge [of m "bitlen m - 53"]
    have q: "0 < round_half_even m (nat (qe - e))"
      by (simp add: s)
    from canonical_pos [OF q, of sg qe] False assms(1) show ?thesis
      by (auto simp: round_double_def Let_def p_def qe_def)
  qed
qed

lemma signed_pos: "0 < signed sg m \<longleftrightarrow> \<not> sg \<and> 0 < m"
  by (simp add: signed_def)

lemma signed_scaled:
  "signed sg (m * 2 ^ k) < 0 \<longleftrightarrow> sg \<and> 0 < m"
  "0 < signed sg (m * 2 ^ k) \<longleftrightarrow> \<not> sg \<and> 0 < m"
  by (auto simp: signed_def zero_less_mult_iff mult_less_0_iff)

lemma dless_zero_iff:
  "dless (Finite sg q e) 0 \<longleftrightarrow> sg \<and> 0 < q" "dless (Infinity sg) 0 \<longleftrightarrow> sg"
  by (simp_all add: zero_double_def Let_def signed_0 signed_scaled)

lemma round_double_negative:
  "0 < m \<Longrightarrow> - 1074 \<le> e \<Longrightarrow> dless (round_double True m e) 0"
  using round_double_sign [of m e True] by (auto simp: dless_zero_iff)

lemma signed_not: "signed (\<not> sg) m = - signed sg m"
  by (simp add: signed_def)

lemma minus_negative:
  assumes "is_double a" and "is_double b" and "dless a b"
  shows "dless (a - b) 0"
proof (cases a)
  case NaN
  with assms(3) show ?thesis by simp
next
  case (Infinity s)
  with assms(3) show ?thesis
    by (cases b) (auto simp: minus_double_def dless_zero_iff)
next
  case a: (Finite s1 m1 e1)
  show ?thesis
  proof (cases b)
    case NaN
    with assms(3) a show ?thesis by simp
  next
    case (Infinity t)
    with assms(3) a show ?thesis
      by (auto simp: minus_double_def dless_zero_iff)
  next
    case b: (Finite s2 m2 e2)
    define e where "e = (if m1 = 0 then e2 else if m2 = 0 then e1 else min e1 e2)"
    define i where "i = signed s1 (m1 * 2 ^ nat (e1 - e)) + signed (\<not> s2) (m2 * 2 ^ nat (e2 - e))"
    have neg: "i < 0"
    proof (cases "m1 = 0 \<or> m2 = 0")
      case True
      with assms(3) a b show ?thesis
        by (auto simp: i_def e_def Let_def signed_0 signed_not signed_scaled signed_neg
            signed_pos)
    next
      case False
      with assms(3) a b show ?thesis
        by (simp add: i_def e_def Let_def signed_not)
    qed
    from assms(1,2) a b have low: "- 1074 \<le> e"
      using neg by (auto simp: e_def i_def signed_0 split: if_splits)
    from neg have "0 < nat \<bar>i\<bar>" by simp
    from round_double_negative [OF this low] neg a b show ?thesis
      by (simp add: minus_double_def Let_def e_def i_def)
  qed
qed

text \<open>Sums and differences of doubles are doubles.\<close>

lemma bitlen_upper: "m < 2 ^ bitlen m"
proof (induction m rule: less_induct)
  case (less m)
  show ?case
  proof (cases "m = 0")
    case True
    then show ?thesis by simp
  next
    case False
    then have "m div 2 < m" by simp
    then have "m div 2 < 2 ^ bitlen (m div 2)" by (rule less.IH)
    then have "m < 2 * 2 ^ bitlen (m div 2)" by linarith
    with False show ?thesis by (simp add: bitlen_pos)
  qed
qed

lemma canonical_valid:
  "0 < m \<Longrightarrow> m \<le> 2 ^ 53 \<Longrightarrow> - 1074 \<le> e \<Longrightarrow> int (bitlen m) + e \<le> 1024 \<Longrightarrow>
   is_double (canonical sg m e)"
proof (induction sg m e rule: canonical.induct)
  case (1 sg m e)
  show ?case
  proof (cases "even m")
    case True
    with "1.prems" have h: "0 < m div 2" by (auto elim: evenE)
    from "1.prems" have "m div 2 \<le> 2 ^ 53" by simp
    moreover from "1.prems" have "- 1074 \<le> e + 1" by simp
    moreover from "1.prems" have "int (bitlen (m div 2)) + (e + 1) \<le> 1024"
      by (simp add: bitlen_pos [of m])
    ultimately have "is_double (canonical sg (m div 2) (e + 1))"
      using "1.IH" "1.prems"(1) True h by simp
    with "1.prems"(1) True show ?thesis
      by (subst canonical.simps) simp
  next
    case False
    then have "m \<noteq> 2 ^ 53" by auto
    with "1.prems" False show ?thesis
      by (subst canonical.simps) simp
  qed
qed

lemma round_half_even_le: "round_half_even m s \<le> Suc (m div 2 ^ s)"
  by (simp add: round_half_even_def Let_def)

lemma is_double_round:
  assumes "- 1074 \<le> e"
  shows "is_double (round_double sg m e)"
proof (cases "m = 0")
  case True
  then show ?thesis by (simp add: round_double_def)
next
  case False
  then have pos: "0 < m" by simp
  define p where "p = int (bitlen m) - 1 + e"
  define qe where "qe = max (p - 52) (- 1074)"
  show ?thesis
  proof (cases "qe \<le> e")
    case True
    then have "bitlen m \<le> 53" by (simp add: qe_def p_def)
    then have "(2::nat) ^ bitlen m \<le> 2 ^ 53" by (intro power_increasing) auto
    with bitlen_upper [of m] have "m \<le> 2 ^ 53" by linarith
    with pos assms True canonical_valid [OF pos, of e sg] show ?thesis
      by (auto simp: round_double_def Let_def p_def qe_def)
  next
    case False
    with assms have s: "nat (qe - e) = bitlen m - 53" and big: "53 < bitlen m"
      and low: "- 1074 \<le> qe"
      by (auto simp: qe_def p_def)
    define q where "q = round_half_even m (bitlen m - 53)"
    from big have "2 ^ (bitlen m - 53) \<le> (2::nat) ^ (bitlen m - 1)"
      by (intro power_increasing) auto
    also from pos have "\<dots> \<le> m" by (rule bitlen_lower)
    finally have "0 < m div 2 ^ (bitlen m - 53)"
      by (simp add: div_greater_zero_iff)
    with round_half_even_ge [of m "bitlen m - 53"] have qpos: "0 < q"
      by (simp add: q_def)
    from big have "bitlen m = 53 + (bitlen m - 53)" by simp
    then have "(2::nat) ^ bitlen m = 2 ^ 53 * 2 ^ (bitlen m - 53)"
      by (metis power_add)
    with bitlen_upper [of m] have "m < 2 ^ 53 * 2 ^ (bitlen m - 53)"
      by simp
    then have "m div 2 ^ (bitlen m - 53) < 2 ^ 53"
      by (rule less_mult_imp_div_less)
    with round_half_even_le [of m "bitlen m - 53"] have qle: "q \<le> 2 ^ 53"
      by (simp add: q_def)
    from False pos s assms big have "round_double sg m e =
        (if 1024 < int (bitlen q) + qe then Infinity sg else canonical sg q qe)"
      by (simp add: round_double_def Let_def p_def qe_def q_def)
    with canonical_valid [OF qpos qle low, of sg] show ?thesis
      by auto
  qed
qed

lemma is_double_plus: "is_double a \<Longrightarrow> is_double b \<Longrightarrow> is_double (a + b)"
  by (cases a; cases b)
     (auto simp: plus_double_def Let_def is_double_round signed_0 split: if_splits)

lemma is_double_minus: "is_double a \<Longrightarrow> is_double b \<Longrightarrow> is_double (a - b)"
  by (cases a; cases b)
     (auto simp: minus_double_def Let_def is_double_round signed_0 split: if_splits)

lemmas dbl_eval = dbl_def round_double_def round_half_even_def plus_double_def minus_double_def
  zero_double_def signed_def Let_def bitlen.simps canonical.simps

lemma is_zero_plus: "is_zero z \<Longrightarrow> is_zero a \<Longrightarrow> is_zero (z + a)"
  by (cases z; cases a) (simp_all add: plus_double_def signed_0)

text \<open>Sample points of the arithmetic: a tie rounds to the even neighbour, the sum of two
  clock values of the year 2026 loses its last bits, the largest double overflows, and
  the difference of equal infinities is not a number.\<close>

lemma double_examples:
  "dbl 1 53 + dbl 1 0 = dbl 1 53"
  "dbl 1 53 + dbl 3 0 = dbl 2251799813685249 2"
  "dbl 1880096768129453 (- 20) + dbl 7520387078938725 (- 22) = dbl 1880096768932067 (- 19)"
  "dbl 9007199254740991 971 + dbl 9007199254740991 971 = Infinity False"
  "dbl 1 (- 1074) - dbl 1 (- 1074) = 0"
  "Infinity False - Infinity False = NaN"
  by (simp_all add: dbl_eval)

lemma foldl_zeroes: "foldl (+) (0::double) (map snd (map (\<lambda>k. (k, 0)) ks)) = 0"
  by (induction ks) (simp_all add: zero_plus_zero)


section \<open>Facts about the container\<close>

lemma map_of_emplace: "map_of (emplace k v m) = (map_of m)(k \<mapsto> v)"
  by (induction m) (auto simp: fun_eq_iff)

lemma val_emplace: "val (emplace k v m) k' = (if k' = k then v else val m k')"
  by (simp add: val_def map_of_emplace)

lemma fst_subscript: "fst (subscript m k) = val m k"
  by (simp add: subscript_def val_def split: option.split)

lemma map_of_snd_subscript:
  "map_of (snd (subscript m k)) = (case map_of m k of None \<Rightarrow> (map_of m)(k \<mapsto> 0) | Some v \<Rightarrow> map_of m)"
  by (simp add: subscript_def map_of_emplace split: option.split)

lemma val_snd_subscript: "val (snd (subscript m k)) k' = val m k'"
  by (auto simp: val_def map_of_snd_subscript split: option.split)

lemma val_add_assign: "val (add_assign k d m) k' = (if k' = k then val m k + d else val m k')"
  by (simp add: add_assign_def split_beta val_emplace fst_subscript val_snd_subscript)

lemma val_sub_assign: "val (sub_assign k d m) k' = (if k' = k then val m k - d else val m k')"
  by (simp add: sub_assign_def split_beta val_emplace fst_subscript val_snd_subscript)

lemma map_of_add_assign_same: "map_of (add_assign k d m) k = Some (val m k + d)"
  by (simp add: add_assign_def split_beta map_of_emplace fst_subscript)

lemma map_of_sub_assign_same: "map_of (sub_assign k d m) k = Some (val m k - d)"
  by (simp add: sub_assign_def split_beta map_of_emplace fst_subscript)


lemma set_keys_emplace: "set (keys (emplace k v m)) = insert k (set (keys m))"
  by (induction m) (auto simp: keys_def)

lemma is_map_emplace: "is_map m \<Longrightarrow> is_map (emplace k v m)"
proof (induction m)
  case Nil
  then show ?case by (simp add: is_map_def keys_def)
next
  case (Cons p ps)
  then have above: "\<forall>x\<in>set (keys ps). fst p < x" and tl: "is_map ps"
    by (simp_all add: is_map_def keys_def)
  show ?case
  proof (cases "k = fst p")
    case True
    with Cons.prems show ?thesis by (simp add: is_map_def keys_def)
  next
    case False
    show ?thesis
    proof (cases "k < fst p")
      case True
      with above have "\<forall>x\<in>set (keys ps). k < x" by auto
      with True Cons.prems \<open>k \<noteq> fst p\<close> show ?thesis
        by (simp add: is_map_def keys_def)
    next
      case False
      with \<open>k \<noteq> fst p\<close> have "fst p < k" by simp
      with above have "\<forall>x\<in>set (keys (emplace k v ps)). fst p < x"
        by (simp add: set_keys_emplace)
      with Cons.IH [OF tl] False \<open>k \<noteq> fst p\<close> show ?thesis
        by (simp add: is_map_def keys_def)
    qed
  qed
qed

lemma is_map_subscript: "is_map m \<Longrightarrow> is_map (snd (subscript m k))"
  by (simp add: subscript_def is_map_emplace split: option.split)

lemma is_map_assign: "is_map m \<Longrightarrow> is_map (assign k v m)"
  by (simp add: assign_def split_beta is_map_emplace is_map_subscript)

lemma is_map_add_assign: "is_map m \<Longrightarrow> is_map (add_assign k v m)"
  by (simp add: add_assign_def split_beta is_map_emplace is_map_subscript)

lemma is_map_sub_assign: "is_map m \<Longrightarrow> is_map (sub_assign k v m)"
  by (simp add: sub_assign_def split_beta is_map_emplace is_map_subscript)

lemma erase_absent: "k \<notin> set (keys m) \<Longrightarrow> erase k m = m"
  by (induction m) (auto simp: keys_def)

lemma filter_absent: "k \<notin> set (keys m) \<Longrightarrow> filter (\<lambda>q. fst q \<noteq> k) m = m"
  by (induction m) (auto simp: keys_def)

lemma erase_filter: "is_map m \<Longrightarrow> erase k m = filter (\<lambda>p. fst p \<noteq> k) m"
proof (induction m)
  case Nil
  then show ?case by simp
next
  case (Cons p ps)
  then have tl: "is_map ps" and fresh: "fst p \<notin> set (keys ps)"
    by (auto simp: is_map_def keys_def)
  show ?case
  proof (cases "fst p = k")
    case True
    with fresh have "filter (\<lambda>q. fst q \<noteq> k) ps = ps"
      by (simp add: filter_absent)
    with True show ?thesis by simp
  next
    case False
    with Cons.IH [OF tl] show ?thesis by simp
  qed
qed

lemma is_map_filter: "is_map m \<Longrightarrow> is_map (filter P m)"
  unfolding is_map_def keys_def
  by (induction m) auto

lemma is_map_erase: "is_map m \<Longrightarrow> is_map (erase k m)"
  by (simp add: erase_filter is_map_filter)

lemma zero_all_keys: "zero_all m = map (\<lambda>k. (k, 0)) (keys m)"
  by (induction m rule: zero_all.induct) (simp_all add: keys_def)

lemma keys_zero_all: "keys (zero_all m) = keys m"
  by (simp add: zero_all_keys keys_def comp_def)

lemma is_map_zero_all: "is_map m \<Longrightarrow> is_map (zero_all m)"
  by (simp add: is_map_def keys_zero_all)

lemma sorted_keys: "is_map m \<Longrightarrow> sorted_list_of_set (set (keys m)) = keys m"
  by (simp add: is_map_def strict_sorted_iff sorted_list_of_set.idem_if_sorted_distinct)

lemma val_entry: "is_map m \<Longrightarrow> (k, v) \<in> set m \<Longrightarrow> val m k = v"
  by (simp add: is_map_def keys_def val_def strict_sorted_iff)

lemma by_keys: "is_map m \<Longrightarrow> map (\<lambda>k. f k (val m k)) (keys m) = map (\<lambda>(k, v). f k v) m"
  by (auto simp: keys_def val_entry)



section \<open>Facts about the streams and the loops that write to them\<close>

lemma fput_open: "is_open f \<Longrightarrow> fput x f = f\<lparr>content := content f @ [x]\<rparr>"
  by (simp add: fput_def)

lemma fput_closed: "\<not> is_open f \<Longrightarrow> fput x f = f"
  by (simp add: fput_def)

lemma writeTimeStep_loop_open:
  "is_open f \<Longrightarrow> writeTimeStep_loop es f =
     f\<lparr>content := content f @
        concat (map (\<lambda>(k, v). [Dbl 0 adj_unset CHR '' '' ff_unset 6 v, Chars tab]) es)\<rparr>"
  by (induction es f rule: writeTimeStep_loop.induct) (simp_all add: f_str_def f_dbl_def fput_open)

lemma writeTimeStep_loop_closed: "\<not> is_open f \<Longrightarrow> writeTimeStep_loop es f = f"
  by (induction es f rule: writeTimeStep_loop.induct) (simp_all add: f_str_def f_dbl_def fput_closed)

lemma writeLegend_loop_open:
  "is_open f \<Longrightarrow> writeLegend_loop es f =
     f\<lparr>content := content f @ concat (map (\<lambda>k. [Chars k, Chars newline]) (keys es))\<rparr>"
  by (induction es f rule: writeLegend_loop.induct)
     (simp_all add: f_str_def f_endl_def fput_open keys_def)

lemma writeLegend_loop_closed: "\<not> is_open f \<Longrightarrow> writeLegend_loop es f = f"
  by (induction es f rule: writeLegend_loop.induct) (simp_all add: f_str_def f_endl_def fput_closed)

lemma writeTime_loop_open:
  "is_open f \<Longrightarrow> writeTime_loop es f =
     f\<lparr>content := content f @
        concat (map (\<lambda>(k, v). [Chars k, Chars '' '', Dbl 0 adj_unset CHR '' '' ff_unset 6 v, Chars newline])
                    es)\<rparr>"
  by (induction es f rule: writeTime_loop.induct)
     (simp_all add: f_str_def f_dbl_def f_endl_def fput_open)

lemma writeTime_loop_closed: "\<not> is_open f \<Longrightarrow> writeTime_loop es f = f"
  by (induction es f rule: writeTime_loop.induct)
     (simp_all add: f_str_def f_dbl_def f_endl_def fput_closed)

lemma pad0: "pad adj fill 0 s = s"
  by (simp add: pad_def)

lemma cout_row_eq:
  "cout_row name v c =
     c\<lparr>floatflag := ff_fixed, precision := 4,
       shown := shown c @
         [Chars (pad (adjustflag c) (fillchar c) 24 name),
             Dbl 13 (adjustflag c) (fillchar c) ff_fixed 4 v, Chars newline]\<rparr>"
  by (simp add: cout_row_def cout_endl_def cout_dbl_def cout_setprecision_def cout_fixed_def
      cout_str_def)

lemma printAllTime_loop_total: "fst (printAllTime_loop es t c) = foldl (+) t (map snd es)"
  by (induction es t c rule: printAllTime_loop.induct) simp_all

lemma printAllTime_loop_adjust:
  "adjustflag (snd (printAllTime_loop es t c)) = adjustflag c \<and>
   fillchar (snd (printAllTime_loop es t c)) = fillchar c"
  by (induction es t c rule: printAllTime_loop.induct) (simp_all add: cout_row_eq)

lemma printAllTime_loop_shown:
  "shown (snd (printAllTime_loop es t c)) =
     shown c @
     concat (map (\<lambda>(k, v). [Chars (pad (adjustflag c) (fillchar c) 24 k),
         Dbl 13 (adjustflag c) (fillchar c) ff_fixed 4 v, Chars newline]) es)"
  by (induction es t c rule: printAllTime_loop.induct) (simp_all add: cout_row_eq)

lemma printAllTime_frame:
  "file' (printAllTime s) = file' s" "stepFile (printAllTime s) = stepFile s"
  "legendFile (printAllTime s) = legendFile s" "tic (printAllTime s) = tic s"
  "timer (printAllTime s) = timer s" "timeStep (printAllTime s) = timeStep s"
  "memory (printAllTime s) = memory s" "printNow (printAllTime s) = printNow s"
  by (simp_all add: printAllTime_def Let_def split_beta)

lemma printAllTime_shown:
  "shown (cout (printAllTime s)) =
     shown (cout s) @ [Chars newline] @
     concat (map (\<lambda>(k, v). [Chars (pad (adjustflag (cout s)) (fillchar (cout s)) 24 k),
         Dbl 13 (adjustflag (cout s)) (fillchar (cout s)) ff_fixed 4 v, Chars newline])
                 (timer s)) @
     [Chars separator, Chars newline,
      Chars (pad (adjustflag (cout s)) (fillchar (cout s)) 24 ''TOTAL''),
          Dbl 13 (adjustflag (cout s)) (fillchar (cout s)) ff_fixed 4 (foldl (+) 0 (map snd (timer s))),
      Chars newline]"
proof -
  obtain t c where lp: "printAllTime_loop (timer s) 0 (cout_endl (cout s)) = (t, c)"
    by (cases "printAllTime_loop (timer s) 0 (cout_endl (cout s))")
  from printAllTime_loop_total [of "timer s" 0 "cout_endl (cout s)"] lp
  have t: "t = foldl (+) 0 (map snd (timer s))" by simp
  from printAllTime_loop_adjust [of "timer s" 0 "cout_endl (cout s)"] lp
  have a: "adjustflag c = adjustflag (cout s)" "fillchar c = fillchar (cout s)"
    by (simp_all add: cout_endl_def)
  from printAllTime_loop_shown [of "timer s" 0 "cout_endl (cout s)"] lp
  have c: "shown c = shown (cout s) @ [Chars newline] @
      concat (map (\<lambda>(k, v). [Chars (pad (adjustflag (cout s)) (fillchar (cout s)) 24 k),
          Dbl 13 (adjustflag (cout s)) (fillchar (cout s)) ff_fixed 4 v, Chars newline])
                  (timer s))"
    by (simp add: cout_endl_def)
  show ?thesis
    unfolding printAllTime_def Let_def lp
    by (simp add: cout_row_eq cout_endl_def cout_str_def pad0 t a c)
qed



section \<open>Facts about the member functions\<close>

lemma subscript_present: "map_of m k = Some v \<Longrightarrow> subscript m k = (v, m)"
  by (simp add: subscript_def)

lemma subscript_again: "snd (subscript (snd (subscript m k)) k) = snd (subscript m k)"
  by (simp add: subscript_def map_of_emplace split: option.split)

lemma subscript_add_assign: "snd (subscript (add_assign k d m) k) = add_assign k d m"
  by (simp add: subscript_present [OF map_of_add_assign_same])

lemma stopTimer_eq:
  "stopTimer now e p s =
     s\<lparr>tic := snd (subscript (tic s) e),
       timeStep := add_assign e (now - val (tic s) e) (timeStep s),
       timer := add_assign e (now - val (tic s) e) (timer s),
       cout := (if p then cout_event_line e (val (timer s) e + (now - val (tic s) e)) (cout s)
                else cout s)\<rparr>"
  by (simp add: stopTimer_def Let_def split_beta fst_subscript val_snd_subscript
      subscript_again subscript_add_assign val_add_assign)


lemma val_assign: "val (assign k v m) k' = (if k' = k then v else val m k')"
  by (simp add: assign_def split_beta val_emplace val_snd_subscript)

lemma val_tic_exec:
  "\<forall>t. c \<noteq> StartTimer t e \<Longrightarrow> val (tic (exec c s)) e = val (tic s) e"
  by (cases c)
     (simp_all add: startTimer_def stopTimer_eq eraseTimer_def resetTimer_def resetTimeStep_def
        allocMemory_def freeMemory_def printTime_def printMemory_def printAllTime_frame
        writeLegend_def writeTime_def writeTimeStep_def Let_def split_beta
        val_assign val_snd_subscript)

lemma val_tic_run:
  "\<forall>t. StartTimer t e \<notin> set cs \<Longrightarrow> val (tic (run cs s)) e = val (tic s) e"
proof (induction cs arbitrary: s)
  case Nil
  then show ?case by simp
next
  case (Cons c cs)
  then have "\<forall>t. c \<noteq> StartTimer t e" and "\<forall>t. StartTimer t e \<notin> set cs"
    by auto
  with Cons.IH [of "exec c s"] show ?case
    by (simp add: val_tic_exec)
qed

lemma val_absent: "e \<notin> set (keys m) \<Longrightarrow> val m e = 0"
  by (simp add: val_def keys_def map_of_eq_None_iff [THEN iffD2])

lemma writeTimeStep_open:
  "is_open (stepFile s) \<Longrightarrow>
   writeTimeStep n s =
     s\<lparr>stepFile := (stepFile s)\<lparr>content := content (stepFile s) @ [Dec n, Chars tab] @
        concat (map (\<lambda>(k, v). [Dbl 0 adj_unset CHR '' '' ff_unset 6 v, Chars tab])
                    (timeStep s)) @
        [Chars newline]\<rparr>\<rparr>"
  by (simp add: writeTimeStep_def Let_def f_str_def f_int_def f_endl_def fput_open
      writeTimeStep_loop_open)

lemma writeTimeStep_closed: "\<not> is_open (stepFile s) \<Longrightarrow> writeTimeStep n s = s"
  by (simp add: writeTimeStep_def Let_def f_str_def f_int_def f_endl_def fput_closed
      writeTimeStep_loop_closed)

lemma values_by_sorted_keys:
  assumes "is_map m"
  shows "concat (map (\<lambda>k. f k (val m k)) (sorted_list_of_set (set (keys m)))) =
         concat (map (\<lambda>(k, v). f k v) m)"
  using assms by (simp add: sorted_keys by_keys)

lemma Logger_destroy_legend:
  "is_open (legendFile s) \<Longrightarrow>
   content (legendFile (Logger_destroy s)) =
     content (legendFile s) @ concat (map (\<lambda>k. [Chars k, Chars newline]) (keys (timer s)))"
  by (simp add: Logger_destroy_def Let_def writeLegend_def writeLegend_loop_open ofstream_close_def)

lemma writeTime_open:
  "is_open (file' s) \<Longrightarrow>
   content (file' (writeTime s)) = content (file' s) @
     concat (map (\<lambda>(k, v). [Chars k, Chars '' '', Dbl 0 adj_unset CHR '' '' ff_unset 6 v,
                            Chars newline])
                 (timer s))"
  by (simp add: writeTime_def writeTime_loop_open)

lemma subscript_absent: "k \<notin> set (keys m) \<Longrightarrow> subscript m k = (0, emplace k 0 m)"
  by (simp add: subscript_def keys_def map_of_eq_None_iff [THEN iffD2])

lemma length_emplace_absent: "k \<notin> set (keys m) \<Longrightarrow> length (emplace k v m) = Suc (length m)"
  by (induction m) (auto simp: keys_def)

lemma exec_printNow: "exec c (s\<lparr>printNow := b\<rparr>) = (exec c s)\<lparr>printNow := b\<rparr>"
  by (cases c)
     (simp_all add: startTimer_def stopTimer_def eraseTimer_def resetTimer_def
        resetTimeStep_def allocMemory_def freeMemory_def printTime_def printMemory_def
        printAllTime_def writeLegend_def writeTime_def writeTimeStep_def Let_def split_beta)

lemma run_printNow: "run cs (s\<lparr>printNow := b\<rparr>) = (run cs s)\<lparr>printNow := b\<rparr>"
  by (induction cs arbitrary: s) (simp_all add: exec_printNow)


section \<open>The maps of a \<open>Logger\<close> stay ordered\<close>

text \<open>
  Both constructors produce empty maps, and no member function breaks the strict key
  order: every state a program can reach satisfies \<open>maps_ok\<close>.
\<close>

lemma maps_ok_exec: "maps_ok s \<Longrightarrow> maps_ok (exec c s)"
  by (cases c)
     (simp_all add: maps_ok_def startTimer_def stopTimer_eq eraseTimer_def resetTimer_def
        resetTimeStep_def allocMemory_def freeMemory_def printTime_def printMemory_def
        printAllTime_frame writeLegend_def writeTime_def writeTimeStep_def Let_def split_beta
        is_map_assign is_map_add_assign is_map_sub_assign is_map_subscript is_map_erase
        is_map_zero_all)

lemma maps_ok_run: "maps_ok s \<Longrightarrow> maps_ok (run cs s)"
  by (induction cs arbitrary: s) (simp_all add: maps_ok_exec)

lemma maps_ok_constructed:
  "maps_ok (run cs (Logger_default pn c))" "maps_ok (run cs (Logger_folder can_open folder c))"
  by (rule maps_ok_run, simp add: maps_ok_def is_map_def keys_def Logger_default_def Logger_folder_def)+


section \<open>Timers\<close>

text \<open>
  Claim C1. Take a \<open>Logger\<close> whose \<open>tic\<close> has no entry for \<open>e\<close> (a freshly
  constructed one, for instance) and any sequence of calls in which \<open>startTimer\<close> is
  never given \<open>e\<close>. Then \<open>tic[e]\<close> reads as zero, and \<open>stopTimer(e)\<close> at clock value
  \<open>now\<close> adds \<open>now - 0\<close> to \<open>timer[e]\<close> and to \<open>timeStep[e]\<close>, in the arithmetic of
  \<open>double\<close>; the delta \<open>now - 0\<close> is the clock value \<open>now\<close> itself.
\<close>

theorem stopTimer_never_started:
  assumes "e \<notin> set (keys (tic s0))" and "\<forall>t. StartTimer t e \<notin> set cs" and "is_double now"
  shows "val (tic (run cs s0)) e = 0 \<and>
    now - 0 = now \<and>
    map_of (timer (stopTimer now e p (run cs s0))) e =
      Some (val (timer (run cs s0)) e + (now - 0)) \<and>
    map_of (timeStep (stopTimer now e p (run cs s0))) e =
      Some (val (timeStep (run cs s0)) e + (now - 0)) \<and>
    map_of (timer (stopTimer now e p (run cs s0))) e = Some (val (timer (run cs s0)) e + now)"
proof -
  from assms(1,2) have "val (tic (run cs s0)) e = 0"
    by (simp add: val_tic_run val_absent)
  moreover from assms(3) have "now - 0 = now"
    by (rule minus_zero)
  ultimately show ?thesis
    by (simp add: stopTimer_eq map_of_add_assign_same)
qed

text \<open>
  An instance: \<open>''A''\<close> is never started and is stopped at the clock values
  1793000000.123456 and 1793000001.654321; \<open>timer[''A'']\<close> then holds their sum as a
  \<open>double\<close>, 1880096768932067 / 524288.
\<close>

theorem stopTimer_never_started_witness:
  "''A'' \<notin> set (keys (tic (Logger_folder (\<lambda>n. True) ''case'' cout_init))) \<and>
   (\<forall>t. StartTimer t ''A'' \<notin>
      set [StartTimer (dbl 1 0) ''B'', StopTimer (dbl 3 0) ''B'' False,
           StopTimer (dbl 1880096768129453 (- 20)) ''A'' False]) \<and>
   is_double (dbl 7520387078938725 (- 22)) \<and>
   val (timer (run [StartTimer (dbl 1 0) ''B'', StopTimer (dbl 3 0) ''B'' False,
                    StopTimer (dbl 1880096768129453 (- 20)) ''A'' False]
          (Logger_folder (\<lambda>n. True) ''case'' cout_init))) ''A'' = dbl 1880096768129453 (- 20) \<and>
   map_of (timer (stopTimer (dbl 7520387078938725 (- 22)) ''A'' False
          (run [StartTimer (dbl 1 0) ''B'', StopTimer (dbl 3 0) ''B'' False,
                StopTimer (dbl 1880096768129453 (- 20)) ''A'' False]
            (Logger_folder (\<lambda>n. True) ''case'' cout_init)))) ''A'' =
     Some (dbl 1880096768932067 (- 19))"
proof -
  define s where "s = run [StartTimer (dbl 1 0) ''B'', StopTimer (dbl 3 0) ''B'' False,
                           StopTimer (dbl 1880096768129453 (- 20)) ''A'' False]
                          (Logger_folder (\<lambda>n. True) ''case'' cout_init)"
  have fresh: "''A'' \<notin> set (keys (tic (Logger_folder (\<lambda>n. True) ''case'' cout_init)))"
    by (simp add: Logger_folder_def keys_def)
  have never: "\<forall>t. StartTimer t ''A'' \<notin>
      set [StartTimer (dbl 1 0) ''B'', StopTimer (dbl 3 0) ''B'' False,
           StopTimer (dbl 1880096768129453 (- 20)) ''A'' False]"
    by simp
  have clock: "is_double (dbl 7520387078938725 (- 22))"
    by (simp add: dbl_eval)
  have before: "val (timer s) ''A'' = dbl 1880096768129453 (- 20)"
    by (simp add: s_def Logger_folder_def stopTimer_eq startTimer_def val_def assign_def
        add_assign_def subscript_def dbl_eval)
  have sum: "dbl 1880096768129453 (- 20) + dbl 7520387078938725 (- 22) =
      dbl 1880096768932067 (- 19)"
    by (simp add: dbl_eval)
  from stopTimer_never_started [OF fresh never clock, of False]
  have "map_of (timer (stopTimer (dbl 7520387078938725 (- 22)) ''A'' False s)) ''A'' =
     Some (dbl 1880096768932067 (- 19))"
    unfolding s_def [symmetric] by (simp add: before sum)
  with fresh never clock before show ?thesis
    unfolding s_def by blast
qed


text \<open>
  Claim C5. \<open>eraseTimer(e)\<close> changes nothing but \<open>timer\<close>: \<open>tic\<close>, \<open>timeStep\<close> and \<open>memory\<close>
  keep their keys and values. From \<open>timer\<close> it removes the entry of \<open>e\<close> and no other, so
  that the table of a following \<open>printAllTime()\<close> and the lines of a following
  \<open>writeTime()\<close> are those of the entries with a key other than \<open>e\<close>.
\<close>

theorem eraseTimer_only_timer:
  "eraseTimer e s = s\<lparr>timer := timer (eraseTimer e s)\<rparr> \<and>
   tic (eraseTimer e s) = tic s \<and>
   timeStep (eraseTimer e s) = timeStep s \<and>
   memory (eraseTimer e s) = memory s \<and>
   (is_map (timer s) \<longrightarrow>
      timer (eraseTimer e s) = filter (\<lambda>p. fst p \<noteq> e) (timer s) \<and>
      e \<notin> set (keys (timer (eraseTimer e s))) \<and>
      shown (cout (printAllTime (eraseTimer e s))) =
        shown (cout s) @ [Chars newline] @
        concat (map (\<lambda>(k, v). [Chars (pad (adjustflag (cout s)) (fillchar (cout s)) 24 k),
            Dbl 13 (adjustflag (cout s)) (fillchar (cout s)) ff_fixed 4 v, Chars newline])
                    (filter (\<lambda>p. fst p \<noteq> e) (timer s))) @
        [Chars separator, Chars newline, Chars (pad (adjustflag (cout s)) (fillchar (cout s)) 24 ''TOTAL''),
         Dbl 13 (adjustflag (cout s)) (fillchar (cout s)) ff_fixed 4 (foldl (+) 0 (map snd (filter (\<lambda>p. fst p \<noteq> e) (timer s)))),
         Chars newline] \<and>
      (is_open (file' s) \<longrightarrow>
         content (file' (writeTime (eraseTimer e s))) =
           content (file' s) @
           concat (map (\<lambda>(k, v). [Chars k, Chars '' '', Dbl 0 adj_unset CHR '' '' ff_unset 6 v, Chars newline])
                       (filter (\<lambda>p. fst p \<noteq> e) (timer s)))))"
proof -
  have frame: "eraseTimer e s = s\<lparr>timer := timer (eraseTimer e s)\<rparr>"
    "tic (eraseTimer e s) = tic s" "timeStep (eraseTimer e s) = timeStep s"
    "memory (eraseTimer e s) = memory s" "cout (eraseTimer e s) = cout s"
    "file' (eraseTimer e s) = file' s"
    by (simp_all add: eraseTimer_def)
  have tm: "timer (eraseTimer e s) = filter (\<lambda>p. fst p \<noteq> e) (timer s)" if "is_map (timer s)"
    using that by (simp add: eraseTimer_def erase_filter)
  have gone: "e \<notin> set (keys (filter (\<lambda>p. fst p \<noteq> e) (timer s)))"
    by (auto simp: keys_def)
  have wt: "content (file' (writeTime (eraseTimer e s))) =
           content (file' s) @
           concat (map (\<lambda>(k, v). [Chars k, Chars '' '', Dbl 0 adj_unset CHR '' '' ff_unset 6 v, Chars newline])
                       (timer (eraseTimer e s)))" if "is_open (file' s)"
    using that writeTime_open [of "eraseTimer e s"] by (simp add: frame(6))
  have pa: "shown (cout (printAllTime (eraseTimer e s))) =
        shown (cout s) @ [Chars newline] @
        concat (map (\<lambda>(k, v). [Chars (pad (adjustflag (cout s)) (fillchar (cout s)) 24 k),
            Dbl 13 (adjustflag (cout s)) (fillchar (cout s)) ff_fixed 4 v, Chars newline])
                    (timer (eraseTimer e s))) @
        [Chars separator, Chars newline, Chars (pad (adjustflag (cout s)) (fillchar (cout s)) 24 ''TOTAL''),
         Dbl 13 (adjustflag (cout s)) (fillchar (cout s)) ff_fixed 4 (foldl (+) 0 (map snd (timer (eraseTimer e s)))),
         Chars newline]"
    by (simp add: printAllTime_shown frame(5))
  show ?thesis
    using frame(1-4) tm gone wt pa by simp
qed

text \<open>
  An instance: after \<open>''A''\<close> is erased, \<open>writeTime()\<close> writes the line of \<open>''B''\<close> only,
  while \<open>timeStep\<close> and \<open>memory\<close> still hold their entries for \<open>''A''\<close>.
\<close>

theorem eraseTimer_only_timer_witness:
  "is_map (timer (run [StopTimer (dbl 2 0) ''A'' False, StopTimer (dbl 3 0) ''B'' False,
                       AllocMemory ''A'' (dbl 8 0)]
                      (Logger_folder (\<lambda>n. True) ''case'' cout_init))) \<and>
   is_open (file' (run [StopTimer (dbl 2 0) ''A'' False, StopTimer (dbl 3 0) ''B'' False,
                        AllocMemory ''A'' (dbl 8 0)]
                      (Logger_folder (\<lambda>n. True) ''case'' cout_init))) \<and>
   timer (eraseTimer ''A''
     (run [StopTimer (dbl 2 0) ''A'' False, StopTimer (dbl 3 0) ''B'' False,
           AllocMemory ''A'' (dbl 8 0)]
          (Logger_folder (\<lambda>n. True) ''case'' cout_init))) = [(''B'', dbl 3 0)] \<and>
   timeStep (eraseTimer ''A''
     (run [StopTimer (dbl 2 0) ''A'' False, StopTimer (dbl 3 0) ''B'' False,
           AllocMemory ''A'' (dbl 8 0)]
          (Logger_folder (\<lambda>n. True) ''case'' cout_init))) =
     [(''A'', dbl 2 0), (''B'', dbl 3 0)] \<and>
   memory (eraseTimer ''A''
     (run [StopTimer (dbl 2 0) ''A'' False, StopTimer (dbl 3 0) ''B'' False,
           AllocMemory ''A'' (dbl 8 0)]
          (Logger_folder (\<lambda>n. True) ''case'' cout_init))) = [(''A'', dbl 8 0)] \<and>
   content (file' (writeTime (eraseTimer ''A''
     (run [StopTimer (dbl 2 0) ''A'' False, StopTimer (dbl 3 0) ''B'' False,
           AllocMemory ''A'' (dbl 8 0)]
          (Logger_folder (\<lambda>n. True) ''case'' cout_init))))) =
     [Chars ''B'', Chars '' '', Dbl 0 adj_unset CHR '' '' ff_unset 6 (dbl 3 0), Chars newline]"
proof -
  define s where "s = run [StopTimer (dbl 2 0) ''A'' False, StopTimer (dbl 3 0) ''B'' False,
                           AllocMemory ''A'' (dbl 8 0)]
                          (Logger_folder (\<lambda>n. True) ''case'' cout_init)"
  have tm: "timer s = [(''A'', dbl 2 0), (''B'', dbl 3 0)]"
    and ts: "timeStep s = [(''A'', dbl 2 0), (''B'', dbl 3 0)]"
    and me: "memory s = [(''A'', dbl 8 0)]"
    by (simp_all add: s_def Logger_folder_def stopTimer_eq allocMemory_def val_def
        add_assign_def subscript_def dbl_eval)
  have op: "is_open (file' s)" and em: "content (file' s) = []"
    by (simp_all add: s_def Logger_folder_def stopTimer_eq allocMemory_def ofstream_open_def
        ofstream_init_def)
  have im: "is_map (timer s)"
    by (simp add: tm is_map_def keys_def)
  from eraseTimer_only_timer [of "''A''" s] im op
  have "timer (eraseTimer ''A'' s) = [(''B'', dbl 3 0)] \<and>
        timeStep (eraseTimer ''A'' s) = [(''A'', dbl 2 0), (''B'', dbl 3 0)] \<and>
        memory (eraseTimer ''A'' s) = [(''A'', dbl 8 0)] \<and>
        content (file' (writeTime (eraseTimer ''A'' s))) =
          [Chars ''B'', Chars '' '', Dbl 0 adj_unset CHR '' '' ff_unset 6 (dbl 3 0), Chars newline]"
    by (simp add: tm ts me em)
  with im op show ?thesis
    unfolding s_def by blast
qed

text \<open>
  Claim C6. In every state, \<open>resetTimer()\<close> leaves \<open>timer\<close> with the same keys, each with
  the value zero, and a following \<open>printAllTime()\<close> prints zero in the row of each of
  these keys and zero in the row \<open>TOTAL\<close>.
\<close>

theorem resetTimer_zeroes:
  "timer (resetTimer s) = map (\<lambda>k. (k, 0)) (keys (timer s)) \<and>
   keys (timer (resetTimer s)) = keys (timer s) \<and>
   shown (cout (printAllTime (resetTimer s))) =
     shown (cout s) @ [Chars newline] @
     concat (map (\<lambda>k. [Chars (pad (adjustflag (cout s)) (fillchar (cout s)) 24 k),
         Dbl 13 (adjustflag (cout s)) (fillchar (cout s)) ff_fixed 4 0, Chars newline])
                 (keys (timer s))) @
     [Chars separator, Chars newline, Chars (pad (adjustflag (cout s)) (fillchar (cout s)) 24 ''TOTAL''),
         Dbl 13 (adjustflag (cout s)) (fillchar (cout s)) ff_fixed 4 0,
      Chars newline]"
proof -
  have tm: "timer (resetTimer s) = map (\<lambda>k. (k, 0)) (keys (timer s))"
    by (simp add: resetTimer_def zero_all_keys)
  have ks: "keys (timer (resetTimer s)) = keys (timer s)"
    by (simp add: resetTimer_def keys_zero_all)
  have co: "cout (resetTimer s) = cout s"
    by (simp add: resetTimer_def)
  have total: "foldl (+) 0 (map snd (timer (resetTimer s))) = 0"
    unfolding tm by (rule foldl_zeroes)
  have rows: "map (\<lambda>(k, v). [Chars (pad (adjustflag (cout s)) (fillchar (cout s)) 24 k),
      Dbl 13 (adjustflag (cout s)) (fillchar (cout s)) ff_fixed 4 v, Chars newline])
                  (timer (resetTimer s))
      = map (\<lambda>k. [Chars (pad (adjustflag (cout s)) (fillchar (cout s)) 24 k),
          Dbl 13 (adjustflag (cout s)) (fillchar (cout s)) ff_fixed 4 0,
          Chars newline]) (keys (timer s))"
    by (simp add: tm comp_def)
  have "shown (cout (printAllTime (resetTimer s))) =
     shown (cout s) @ [Chars newline] @
     concat (map (\<lambda>k. [Chars (pad (adjustflag (cout s)) (fillchar (cout s)) 24 k),
         Dbl 13 (adjustflag (cout s)) (fillchar (cout s)) ff_fixed 4 0, Chars newline])
                 (keys (timer s))) @
     [Chars separator, Chars newline, Chars (pad (adjustflag (cout s)) (fillchar (cout s)) 24 ''TOTAL''),
         Dbl 13 (adjustflag (cout s)) (fillchar (cout s)) ff_fixed 4 0,
      Chars newline]"
    unfolding printAllTime_shown [of "resetTimer s"] co total rows by simp
  with tm ks show ?thesis by blast
qed


section \<open>Memory accounting\<close>

text \<open>
  Claim C7, amended. From a state in which \<open>memory\<close> has no entry for \<open>e\<close> or a zero
  entry, \<open>allocMemory(e, a)\<close> followed by \<open>freeMemory(e, b)\<close> leaves in \<open>memory[e]\<close> the
  double \<open>(0 + a) - b\<close>; with 100 and 40 it is 60. For every double \<open>a\<close> the comparison
  \<open>memory[e] == a - b\<close> holds exactly when \<open>a - b\<close> is a number, and \<open>memory[e]\<close> is the
  double \<open>a - b\<close> itself when \<open>a\<close> is not zero. Nothing keeps the entry from going below
  zero: it is negative whenever \<open>a < b\<close>.
\<close>

theorem alloc_then_free:
  "is_zero (val (memory s) e) \<longrightarrow>
     map_of (memory (freeMemory e b (allocMemory e a s))) e = Some (val (memory s) e + a - b) \<and>
     map_of (memory (freeMemory e (dbl 40 0) (allocMemory e (dbl 100 0) s))) e = Some (dbl 60 0) \<and>
     (is_double a \<longrightarrow>
        deq (val (memory (freeMemory e b (allocMemory e a s))) e) (a - b) = (\<not> is_nan (a - b)) \<and>
        (\<not> is_zero a \<longrightarrow>
           map_of (memory (freeMemory e b (allocMemory e a s))) e = Some (a - b)) \<and>
        (dless (a - b) 0 \<longrightarrow> dless (val (memory (freeMemory e b (allocMemory e a s))) e) 0) \<and>
        (is_double b \<and> dless a b \<longrightarrow>
           dless (val (memory (freeMemory e b (allocMemory e a s))) e) 0))"
proof
  assume z: "is_zero (val (memory s) e)"
  have m: "map_of (memory (freeMemory e y (allocMemory e x s))) e = Some (val (memory s) e + x - y)"
    for x y
    by (simp add: freeMemory_def allocMemory_def map_of_sub_assign_same val_add_assign)
  have v: "val (memory (freeMemory e y (allocMemory e x s))) e = val (memory s) e + x - y" for x y
    by (simp add: val_def m)
  have hundred: "is_double (dbl 100 0)" "\<not> is_zero (dbl 100 0)" "dbl 100 0 - dbl 40 0 = dbl 60 0"
    by (simp_all add: dbl_def round_double_def round_half_even_def minus_double_def signed_def
        Let_def bitlen.simps canonical.simps)
  have sixty: "map_of (memory (freeMemory e (dbl 40 0) (allocMemory e (dbl 100 0) s))) e =
      Some (dbl 60 0)"
    by (simp add: m zero_plus [OF z hundred(1,2)] hundred(3))
  have general: "deq (val (memory s) e + a - b) (a - b) = (\<not> is_nan (a - b)) \<and>
      (\<not> is_zero a \<longrightarrow> val (memory s) e + a - b = a - b) \<and>
      (dless (a - b) 0 \<longrightarrow> dless (val (memory s) e + a - b) 0)" if a: "is_double a"
  proof (cases "is_zero a")
    case True
    with z have "is_zero (val (memory s) e + a)" by (simp add: is_zero_plus)
    from zero_minus_cong [OF this True, of b] True show ?thesis by simp
  next
    case False
    with z a have "val (memory s) e + a = a" by (simp add: zero_plus)
    then show ?thesis by (simp add: deq_same)
  qed
  show "map_of (memory (freeMemory e b (allocMemory e a s))) e = Some (val (memory s) e + a - b) \<and>
     map_of (memory (freeMemory e (dbl 40 0) (allocMemory e (dbl 100 0) s))) e = Some (dbl 60 0) \<and>
     (is_double a \<longrightarrow>
        deq (val (memory (freeMemory e b (allocMemory e a s))) e) (a - b) = (\<not> is_nan (a - b)) \<and>
        (\<not> is_zero a \<longrightarrow>
           map_of (memory (freeMemory e b (allocMemory e a s))) e = Some (a - b)) \<and>
        (dless (a - b) 0 \<longrightarrow> dless (val (memory (freeMemory e b (allocMemory e a s))) e) 0) \<and>
        (is_double b \<and> dless a b \<longrightarrow>
           dless (val (memory (freeMemory e b (allocMemory e a s))) e) 0))"
    using general sixty minus_negative [of a b] by (simp add: m v)
qed

text \<open>
  An instance: 10 allocated and 40 freed leave \<open>- 30\<close>. The difference is the rounded
  one: \<open>2 ^ 53\<close> allocated and \<open>- 1\<close> freed leave \<open>2 ^ 53\<close>.
\<close>

theorem alloc_then_free_witness:
  "is_zero (val (memory (Logger_default False cout_init)) ''u'') \<and>
   is_double (dbl 10 0) \<and> \<not> is_zero (dbl 10 0) \<and> dless (dbl 10 0 - dbl 40 0) 0 \<and>
   is_double (dbl 40 0) \<and> dless (dbl 10 0) (dbl 40 0) \<and>
   memory (freeMemory ''u'' (dbl 40 0) (allocMemory ''u'' (dbl 10 0) (Logger_default False cout_init)))
     = [(''u'', dbl (- 30) 0)] \<and>
   dless (val (memory (freeMemory ''u'' (dbl 40 0)
            (allocMemory ''u'' (dbl 10 0) (Logger_default False cout_init)))) ''u'') 0 \<and>
   memory (freeMemory ''u'' (dbl 40 0) (allocMemory ''u'' (dbl 100 0) (Logger_default False cout_init)))
     = [(''u'', dbl 60 0)] \<and>
   memory (freeMemory ''u'' (dbl (- 1) 0) (allocMemory ''u'' (dbl 1 53) (Logger_default False cout_init)))
     = [(''u'', dbl 1 53)]"
  using alloc_then_free [of "Logger_default False cout_init" "''u''" "dbl 40 0" "dbl 10 0"]
  by (simp add: Logger_default_def freeMemory_def allocMemory_def add_assign_def sub_assign_def
      subscript_def val_def dbl_eval)

text \<open>
  Claim C7 as stated, for all amounts, fails: with \<open>a\<close> and \<open>b\<close> both plus infinity the
  entry is not a number, and \<open>memory[e] == a - b\<close> is false.
\<close>

theorem alloc_then_free_nan:
  "map_of (memory (Logger_default False cout_init)) ''u'' = None \<and>
   is_double (Infinity False) \<and>
   memory (freeMemory ''u'' (Infinity False)
     (allocMemory ''u'' (Infinity False) (Logger_default False cout_init))) = [(''u'', NaN)] \<and>
   Infinity False - Infinity False = NaN \<and>
   \<not> deq (val (memory (freeMemory ''u'' (Infinity False)
              (allocMemory ''u'' (Infinity False) (Logger_default False cout_init)))) ''u'')
          (Infinity False - Infinity False)"
  by (simp add: Logger_default_def freeMemory_def allocMemory_def add_assign_def sub_assign_def
      subscript_def val_def plus_double_def minus_double_def zero_double_def)


section \<open>Console and file output\<close>




text \<open>
  Claim C3, amended. \<open>writeTimeStep(n)\<close> never changes \<open>timeStep\<close>. When \<open>stepFile\<close> is
  open, it appends to it exactly one line: \<open>n\<close>, a tab, then for each key of \<open>timeStep\<close> in
  ascending order its value followed by a tab, then the end of line.
\<close>

theorem writeTimeStep_line:
  "timeStep (writeTimeStep n s) = timeStep s \<and>
   (is_open (stepFile s) \<and> is_map (timeStep s) \<longrightarrow>
      content (stepFile (writeTimeStep n s)) =
        content (stepFile s) @ [Dec n, Chars tab] @
        concat (map (\<lambda>k. [Dbl 0 adj_unset CHR '' '' ff_unset 6 (val (timeStep s) k), Chars tab])
                    (sorted_list_of_set (set (keys (timeStep s))))) @
        [Chars newline])"
proof -
  have "timeStep (writeTimeStep n s) = timeStep s"
    by (simp add: writeTimeStep_def Let_def)
  moreover have "content (stepFile (writeTimeStep n s)) =
        content (stepFile s) @ [Dec n, Chars tab] @
        concat (map (\<lambda>k. [Dbl 0 adj_unset CHR '' '' ff_unset 6 (val (timeStep s) k), Chars tab])
                    (sorted_list_of_set (set (keys (timeStep s))))) @
        [Chars newline]"
    if "is_open (stepFile s)" and "is_map (timeStep s)"
    using that values_by_sorted_keys [of "timeStep s" "\<lambda>k v. [Dbl 0 adj_unset CHR '' '' ff_unset 6 v, Chars tab]"]
    by (simp add: writeTimeStep_open)
  ultimately show ?thesis by blast
qed

text \<open>
  An instance: with \<open>timeStep\<close> holding 1.25 for \<open>''A''\<close> and 2.5 for \<open>''B''\<close>,
  \<open>writeTimeStep(5)\<close> writes 5, 1.25 and 2.5, each followed by a tab.
\<close>

theorem writeTimeStep_line_witness:
  "is_open (stepFile (run [StartTimer 0 ''B'', StopTimer (dbl 5 (- 1)) ''B'' False,
                           StartTimer (dbl 1 0) ''A'', StopTimer (dbl 9 (- 2)) ''A'' False]
                          (Logger_folder (\<lambda>n. True) ''case'' cout_init))) \<and>
   is_map (timeStep (run [StartTimer 0 ''B'', StopTimer (dbl 5 (- 1)) ''B'' False,
                          StartTimer (dbl 1 0) ''A'', StopTimer (dbl 9 (- 2)) ''A'' False]
                         (Logger_folder (\<lambda>n. True) ''case'' cout_init))) \<and>
   timeStep (run [StartTimer 0 ''B'', StopTimer (dbl 5 (- 1)) ''B'' False,
                  StartTimer (dbl 1 0) ''A'', StopTimer (dbl 9 (- 2)) ''A'' False]
                 (Logger_folder (\<lambda>n. True) ''case'' cout_init)) =
     [(''A'', dbl 5 (- 2)), (''B'', dbl 5 (- 1))] \<and>
   content (stepFile (writeTimeStep 5
     (run [StartTimer 0 ''B'', StopTimer (dbl 5 (- 1)) ''B'' False,
           StartTimer (dbl 1 0) ''A'', StopTimer (dbl 9 (- 2)) ''A'' False]
          (Logger_folder (\<lambda>n. True) ''case'' cout_init)))) =
     [Dec 5, Chars tab, Dbl 0 adj_unset CHR '' '' ff_unset 6 (dbl 5 (- 2)), Chars tab,
      Dbl 0 adj_unset CHR '' '' ff_unset 6 (dbl 5 (- 1)), Chars tab, Chars newline]"
proof -
  define s where "s = run [StartTimer 0 ''B'', StopTimer (dbl 5 (- 1)) ''B'' False,
                           StartTimer (dbl 1 0) ''A'', StopTimer (dbl 9 (- 2)) ''A'' False]
                          (Logger_folder (\<lambda>n. True) ''case'' cout_init)"
  have ts: "timeStep s = [(''A'', dbl 5 (- 2)), (''B'', dbl 5 (- 1))]"
    by (simp add: s_def Logger_folder_def stopTimer_eq startTimer_def val_def
        assign_def add_assign_def subscript_def dbl_eval)
  have op: "is_open (stepFile s)" and em: "content (stepFile s) = []"
    by (simp_all add: s_def Logger_folder_def stopTimer_eq startTimer_def ofstream_open_def
        ofstream_init_def)
  have im: "is_map (timeStep s)"
    by (simp add: ts is_map_def keys_def)
  have sk: "sorted_list_of_set (set (keys (timeStep s))) = [''A'', ''B'']"
    using sorted_keys [OF im] by (simp add: ts keys_def)
  from writeTimeStep_line [of 5 s] op im
  have "content (stepFile (writeTimeStep 5 s)) =
     [Dec 5, Chars tab, Dbl 0 adj_unset CHR '' '' ff_unset 6 (dbl 5 (- 2)), Chars tab,
      Dbl 0 adj_unset CHR '' '' ff_unset 6 (dbl 5 (- 1)), Chars tab, Chars newline]"
    by (simp add: sk em) (simp add: ts val_def)
  with op im ts show ?thesis
    unfolding s_def by blast
qed

text \<open>
  Claim C3 as stated, for every state, fails: a \<open>Logger\<close> made by the constructor
  without arguments has no open \<open>stepFile\<close>, and \<open>writeTimeStep(5)\<close> appends nothing
  although \<open>timeStep\<close> has an entry.
\<close>

theorem writeTimeStep_unopened:
  "timeStep (run [StartTimer 0 ''A'', StopTimer (dbl 5 (- 2)) ''A'' False]
     (Logger_default False cout_init)) = [(''A'', dbl 5 (- 2))] \<and>
   content (stepFile (run [StartTimer 0 ''A'', StopTimer (dbl 5 (- 2)) ''A'' False]
     (Logger_default False cout_init))) = [] \<and>
   content (stepFile (writeTimeStep 5
     (run [StartTimer 0 ''A'', StopTimer (dbl 5 (- 2)) ''A'' False]
        (Logger_default False cout_init)))) = [] \<and>
   content (stepFile (writeTimeStep 5
     (run [StartTimer 0 ''A'', StopTimer (dbl 5 (- 2)) ''A'' False]
        (Logger_default False cout_init)))) \<noteq>
     [Dec 5, Chars tab, Dbl 0 adj_unset CHR '' '' ff_unset 6 (dbl 5 (- 2)), Chars tab, Chars newline]"
  by (simp add: Logger_default_def stopTimer_eq startTimer_def val_def assign_def add_assign_def
      subscript_def writeTimeStep_closed ofstream_init_def dbl_eval)

text \<open>
  Claim C4, amended. When \<open>legendFile\<close> is open, the destructor appends to it every key
  of \<open>timer\<close>, each followed by an end of line, whether or not \<open>writeLegend()\<close> was
  called before; \<open>timer\<close> is as it was.
\<close>

theorem destructor_writes_legend:
  "is_open (legendFile s) \<Longrightarrow>
   content (legendFile (Logger_destroy s)) =
     content (legendFile s) @ concat (map (\<lambda>k. [Chars k, Chars newline]) (keys (timer s))) \<and>
   timer (Logger_destroy s) = timer s"
  by (simp add: Logger_destroy_legend) (simp add: Logger_destroy_def Let_def writeLegend_def)

text \<open>
  An instance: two events were timed and \<open>writeLegend()\<close> was never called.
\<close>

theorem destructor_writes_legend_witness:
  "is_open (legendFile (run [StartTimer 0 ''B'', StopTimer (dbl 2 0) ''B'' False,
                             StopTimer (dbl 3 0) ''A'' False]
                            (Logger_folder (\<lambda>n. True) ''case'' cout_init))) \<and>
   content (legendFile (Logger_destroy
     (run [StartTimer 0 ''B'', StopTimer (dbl 2 0) ''B'' False, StopTimer (dbl 3 0) ''A'' False]
          (Logger_folder (\<lambda>n. True) ''case'' cout_init)))) =
     [Chars ''A'', Chars newline, Chars ''B'', Chars newline]"
proof -
  define s where "s = run [StartTimer 0 ''B'', StopTimer (dbl 2 0) ''B'' False,
                           StopTimer (dbl 3 0) ''A'' False]
                          (Logger_folder (\<lambda>n. True) ''case'' cout_init)"
  have op: "is_open (legendFile s)" and em: "content (legendFile s) = []"
    by (simp_all add: s_def Logger_folder_def stopTimer_eq startTimer_def ofstream_open_def
        ofstream_init_def)
  have ks: "keys (timer s) = [''A'', ''B'']"
    by (simp add: s_def Logger_folder_def stopTimer_eq startTimer_def val_def keys_def
        assign_def add_assign_def subscript_def)
  from destructor_writes_legend [OF op]
  have "content (legendFile (Logger_destroy s)) =
     [Chars ''A'', Chars newline, Chars ''B'', Chars newline]"
    by (simp add: em ks)
  with op show ?thesis
    unfolding s_def by blast
qed

text \<open>
  Claim C4 as stated fails: a \<open>Logger\<close> made by the constructor without arguments
  has no open \<open>legendFile\<close>, and its destruction writes no legend although \<open>timer\<close> has
  the key \<open>''A''\<close>.
\<close>

theorem destructor_unopened_legend:
  "keys (timer (run [StartTimer 0 ''A'', StopTimer (dbl 1 0) ''A'' False]
     (Logger_default False cout_init))) = [''A''] \<and>
   content (legendFile (Logger_destroy
     (run [StartTimer 0 ''A'', StopTimer (dbl 1 0) ''A'' False]
        (Logger_default False cout_init)))) = [] \<and>
   content (legendFile (Logger_destroy
     (run [StartTimer 0 ''A'', StopTimer (dbl 1 0) ''A'' False]
        (Logger_default False cout_init)))) \<noteq>
     [Chars ''A'', Chars newline]"
  by (simp add: Logger_default_def stopTimer_eq startTimer_def val_def assign_def add_assign_def
      subscript_def keys_def Logger_destroy_def Let_def writeLegend_def f_endl_def f_str_def
      fput_def ofstream_init_def ofstream_close_def)

text \<open>
  Claim C9. \<open>printTime(e)\<close> for a key \<open>e\<close> that \<open>timer\<close> does not have is not a mere
  query: it leaves \<open>timer\<close> with the new entry \<open>e\<close> of value zero, all other entries as
  they were, so the key set has grown by \<open>e\<close>. Likewise \<open>printMemory(e)\<close> and \<open>memory\<close>.
\<close>

theorem print_inserts_key:
  "(e \<notin> set (keys (timer s)) \<longrightarrow>
      map_of (timer (printTime e s)) = (map_of (timer s))(e \<mapsto> 0) \<and>
      set (keys (timer (printTime e s))) = insert e (set (keys (timer s))) \<and>
      length (timer (printTime e s)) = Suc (length (timer s)) \<and>
      printTime e s \<noteq> s\<lparr>cout := cout (printTime e s)\<rparr>) \<and>
   (e \<notin> set (keys (memory s)) \<longrightarrow>
      map_of (memory (printMemory e s)) = (map_of (memory s))(e \<mapsto> 0) \<and>
      set (keys (memory (printMemory e s))) = insert e (set (keys (memory s))) \<and>
      length (memory (printMemory e s)) = Suc (length (memory s)) \<and>
      printMemory e s \<noteq> s\<lparr>cout := cout (printMemory e s)\<rparr>)"
proof -
  have t: "timer (printTime e s) = emplace e 0 (timer s)" if "e \<notin> set (keys (timer s))"
    using that by (simp add: printTime_def subscript_absent)
  have m: "memory (printMemory e s) = emplace e 0 (memory s)" if "e \<notin> set (keys (memory s))"
    using that by (simp add: printMemory_def subscript_absent)
  have neq: "x \<noteq> s\<lparr>cout := c\<rparr>" if "length (timer x) = Suc (length (timer s))" for x c
    using that by auto
  have neq': "x \<noteq> s\<lparr>cout := c\<rparr>" if "length (memory x) = Suc (length (memory s))" for x c
    using that by auto
  show ?thesis
    using neq [of "printTime e s"] neq' [of "printMemory e s"]
    by (simp add: t m map_of_emplace set_keys_emplace length_emplace_absent)
qed

text \<open>
  An instance, on a fresh \<open>Logger\<close>.
\<close>

theorem print_inserts_key_witness:
  "''A'' \<notin> set (keys (timer (Logger_default False cout_init))) \<and>
   ''A'' \<notin> set (keys (memory (Logger_default False cout_init))) \<and>
   timer (printTime ''A'' (Logger_default False cout_init)) = [(''A'', 0)] \<and>
   memory (printMemory ''A'' (Logger_default False cout_init)) = [(''A'', 0)] \<and>
   length (timer (printTime ''A'' (Logger_default False cout_init))) = Suc 0 \<and>
   length (memory (printMemory ''A'' (Logger_default False cout_init))) = Suc 0"
  using print_inserts_key [of "''A''" "Logger_default False cout_init"]
  by (simp add: Logger_default_def keys_def printTime_def printMemory_def subscript_def)


section \<open>The flag \<open>printNow\<close>\<close>

text \<open>
  Claim C10. No member function reads \<open>printNow\<close>: two runs of the same calls, ended
  or not by the destructor, from states that differ in \<open>printNow\<close> only, end in states
  that differ in \<open>printNow\<close> only, with the same maps, the same files and the same
  console. The constructor taking a folder sets the flag to false.
\<close>

theorem printNow_no_effect:
  "run cs (s\<lparr>printNow := b\<rparr>) = (run cs s)\<lparr>printNow := b\<rparr> \<and>
   Logger_destroy (run cs (s\<lparr>printNow := b\<rparr>)) = (Logger_destroy (run cs s))\<lparr>printNow := b\<rparr> \<and>
   tic (run cs (s\<lparr>printNow := b\<rparr>)) = tic (run cs s) \<and>
   timer (run cs (s\<lparr>printNow := b\<rparr>)) = timer (run cs s) \<and>
   timeStep (run cs (s\<lparr>printNow := b\<rparr>)) = timeStep (run cs s) \<and>
   memory (run cs (s\<lparr>printNow := b\<rparr>)) = memory (run cs s) \<and>
   file' (Logger_destroy (run cs (s\<lparr>printNow := b\<rparr>))) = file' (Logger_destroy (run cs s)) \<and>
   stepFile (Logger_destroy (run cs (s\<lparr>printNow := b\<rparr>))) = stepFile (Logger_destroy (run cs s)) \<and>
   legendFile (Logger_destroy (run cs (s\<lparr>printNow := b\<rparr>))) = legendFile (Logger_destroy (run cs s)) \<and>
   cout (Logger_destroy (run cs (s\<lparr>printNow := b\<rparr>))) = cout (Logger_destroy (run cs s)) \<and>
   printNow (Logger_folder can_open folder c) = False"
proof -
  have d: "Logger_destroy (x\<lparr>printNow := b\<rparr>) = (Logger_destroy x)\<lparr>printNow := b\<rparr>" for x
    by (simp add: Logger_destroy_def Let_def writeLegend_def)
  show ?thesis
    by (simp add: run_printNow d Logger_folder_def)
qed

end
